theory Spec2Isabelle
  imports Complex_Main
begin

section \<open>Fixed-point formats (fixed\_point.py)\<close>

text \<open>
  The module works on Python values: unbounded integers, modelled as \<open>int\<close>, and floats,
  modelled as \<open>real\<close> (the idealisation the specification itself makes: every quantity is
  a real number, and float rounding, infinities and NaN are outside this model).
  Policy tokens are Python strings. Every \<open>raise\<close> of the module and every exception
  of an integer primitive it calls is a value \<open>Inl e\<close> of the result type.
\<close>

datatype error =
    InvalidRounding       \<comment> \<open>\<open>ValueError\<close> raised by \<open>_round_to_int\<close>\<close>
  | InvalidOverflow       \<comment> \<open>\<open>ValueError\<close> raised by \<open>_apply_overflow\<close>\<close>
  | NegativeShiftCount    \<comment> \<open>\<open>ValueError: negative shift count\<close> of \<open><<\<close> and \<open>>>\<close>\<close>

record FixedFormat =
  W :: int
  F :: int
  signed :: bool

text \<open>Sequencing: an exception raised by a step ends the whole call.\<close>

definition bind_result :: "error + 'a \<Rightarrow> ('a \<Rightarrow> error + 'b) \<Rightarrow> error + 'b" where
  "bind_result m k = (case m of Inl e \<Rightarrow> Inl e | Inr v \<Rightarrow> k v)"

text \<open>Python's \<open>a << n\<close> and \<open>a >> n\<close> on integers: both raise on a negative count;
  \<open>>>\<close> is floor division by a power of two.\<close>

definition shl :: "int \<Rightarrow> int \<Rightarrow> error + int" where
  "shl a n = (if n < 0 then Inl NegativeShiftCount else Inr (a * 2 ^ nat n))"

definition shr :: "int \<Rightarrow> int \<Rightarrow> error + int" where
  "shr a n = (if n < 0 then Inl NegativeShiftCount else Inr (a div 2 ^ nat n))"

definition scale :: "FixedFormat \<Rightarrow> error + int" where
  "scale fmt = shl 1 (F fmt)"

definition modulus :: "FixedFormat \<Rightarrow> error + int" where
  "modulus fmt = shl 1 (W fmt)"

definition min_int :: "FixedFormat \<Rightarrow> error + int" where
  "min_int fmt =
     (if signed fmt then bind_result (shl 1 (W fmt - 1)) (\<lambda>p. Inr (- p)) else Inr 0)"

definition max_int :: "FixedFormat \<Rightarrow> error + int" where
  "max_int fmt =
     (if signed fmt then bind_result (shl 1 (W fmt - 1)) (\<lambda>p. Inr (p - 1))
      else bind_result (shl 1 (W fmt)) (\<lambda>p. Inr (p - 1)))"

definition resolution :: "FixedFormat \<Rightarrow> error + real" where
  "resolution fmt = bind_result (scale fmt) (\<lambda>s. Inr (1 / real_of_int s))"

definition min_real :: "FixedFormat \<Rightarrow> error + real" where
  "min_real fmt =
     bind_result (min_int fmt) (\<lambda>lo.
     bind_result (scale fmt) (\<lambda>s. Inr (real_of_int lo / real_of_int s)))"

definition max_real :: "FixedFormat \<Rightarrow> error + real" where
  "max_real fmt =
     bind_result (max_int fmt) (\<lambda>hi.
     bind_result (scale fmt) (\<lambda>s. Inr (real_of_int hi / real_of_int s)))"

section \<open>Conversions\<close>

text \<open>Python's built-in \<open>round\<close> on a float, with no digits argument: the nearest
  integer, an exact tie going to the even neighbour.\<close>

definition py_round :: "real \<Rightarrow> int" where
  "py_round y =
     (let f = \<lfloor>y\<rfloor>; d = y - real_of_int f
      in if d < 1 / 2 then f
         else if 1 / 2 < d then f + 1
         else if even f then f else f + 1)"

text \<open>\<open>_round_to_int\<close>: the product with the scale is computed before the token is
  looked at.\<close>

definition round_to_int :: "real \<Rightarrow> FixedFormat \<Rightarrow> string \<Rightarrow> error + int" where
  "round_to_int x fmt rounding =
     bind_result (scale fmt) (\<lambda>s.
       let y = x * real_of_int s
       in if rounding = ''nearest'' then Inr (py_round y)
          else if rounding = ''floor'' then Inr \<lfloor>y\<rfloor>
          else if rounding = ''ceil'' then Inr \<lceil>y\<rceil>
          else Inl InvalidRounding)"

text \<open>\<open>_apply_overflow\<close>. Python's \<open>%\<close> with a positive right operand is HOL's
  \<open>mod\<close> on \<open>int\<close>; \<open>fmt.signed and ...\<close> evaluates its right operand only for a
  signed format.\<close>

definition apply_overflow :: "int \<Rightarrow> FixedFormat \<Rightarrow> string \<Rightarrow> error + int" where
  "apply_overflow qi fmt overflow =
     (if overflow = ''wrap'' then
        bind_result (modulus fmt) (\<lambda>m.
          let q = qi mod m
          in if signed fmt then
               bind_result (shl 1 (W fmt - 1)) (\<lambda>h.
                 if h \<le> q then bind_result (modulus fmt) (\<lambda>m'. Inr (q - m')) else Inr q)
             else Inr q)
      else if overflow = ''saturate'' then
        bind_result (min_int fmt) (\<lambda>lo.
        bind_result (max_int fmt) (\<lambda>hi. Inr (max lo (min hi qi))))
      else Inl InvalidOverflow)"

text \<open>\<open>int_to_real\<close> folds its argument as the wrap policy does, then divides by the
  scale.\<close>

definition int_to_real :: "int \<Rightarrow> FixedFormat \<Rightarrow> error + real" where
  "int_to_real qi fmt =
     bind_result (modulus fmt) (\<lambda>m.
       let q = qi mod m
       in bind_result
            (if signed fmt then
               bind_result (shl 1 (W fmt - 1)) (\<lambda>h.
                 if h \<le> q then bind_result (modulus fmt) (\<lambda>m'. Inr (q - m')) else Inr q)
             else Inr q)
            (\<lambda>q'. bind_result (scale fmt) (\<lambda>s. Inr (real_of_int q' / real_of_int s))))"

text \<open>The format specification \<open>0{width}X\<close>: upper-case hexadecimal digits of a
  non-negative integer, padded on the left with zeros up to the width, never cut.\<close>

definition hex_digit :: "nat \<Rightarrow> char" where
  "hex_digit d = ''0123456789ABCDEF'' ! d"

fun to_hex :: "nat \<Rightarrow> string" where
  "to_hex n = (if n < 16 then [hex_digit n] else to_hex (n div 16) @ [hex_digit (n mod 16)])"

declare to_hex.simps [simp del]

definition zero_pad :: "nat \<Rightarrow> string \<Rightarrow> string" where
  "zero_pad w s = replicate (w - length s) (CHR ''0'') @ s"

definition int_to_hex :: "int \<Rightarrow> FixedFormat \<Rightarrow> error + string" where
  "int_to_hex qi fmt =
     bind_result (modulus fmt) (\<lambda>m.
       let u = qi mod m; width_nibbles = (W fmt + 3) div 4
       in Inr (''0x'' @ zero_pad (nat width_nibbles) (to_hex (nat u))))"

section \<open>Public operations\<close>

definition quantize ::
  "real \<Rightarrow> FixedFormat \<Rightarrow> string \<Rightarrow> string \<Rightarrow> error + (int \<times> real \<times> string)" where
  "quantize x fmt overflow rounding =
     bind_result (round_to_int x fmt rounding) (\<lambda>r.
     bind_result (apply_overflow r fmt overflow) (\<lambda>qi.
     bind_result (int_to_real qi fmt) (\<lambda>xr.
     bind_result (int_to_hex qi fmt) (\<lambda>h. Inr (qi, xr, h)))))"

definition add ::
  "real \<Rightarrow> real \<Rightarrow> FixedFormat \<Rightarrow> string \<Rightarrow> string \<Rightarrow> error + (int \<times> real \<times> string)" where
  "add a b fmt overflow rounding =
     bind_result (round_to_int a fmt rounding) (\<lambda>ra.
     bind_result (apply_overflow ra fmt overflow) (\<lambda>ai.
     bind_result (round_to_int b fmt rounding) (\<lambda>rb.
     bind_result (apply_overflow rb fmt overflow) (\<lambda>bi.
     bind_result (apply_overflow (ai + bi) fmt overflow) (\<lambda>si.
     bind_result (int_to_real si fmt) (\<lambda>xr.
     bind_result (int_to_hex si fmt) (\<lambda>h. Inr (si, xr, h))))))))"

definition mul ::
  "real \<Rightarrow> real \<Rightarrow> FixedFormat \<Rightarrow> string \<Rightarrow> string \<Rightarrow> error + (int \<times> real \<times> string)" where
  "mul a b fmt overflow rounding =
     bind_result (round_to_int a fmt rounding) (\<lambda>ra.
     bind_result (apply_overflow ra fmt overflow) (\<lambda>ai.
     bind_result (round_to_int b fmt rounding) (\<lambda>rb.
     bind_result (apply_overflow rb fmt overflow) (\<lambda>bi.
     let prod = ai * bi in
     bind_result (shl 1 (F fmt - 1)) (\<lambda>bias.
     bind_result (shr (if 0 \<le> prod then prod + bias else prod - bias) (F fmt)) (\<lambda>q.
     bind_result (apply_overflow q fmt overflow) (\<lambda>qi.
     bind_result (int_to_real qi fmt) (\<lambda>xr.
     bind_result (int_to_hex qi fmt) (\<lambda>h. Inr (qi, xr, h))))))))))"

section \<open>The operations on a well-formed format\<close>

text \<open>With a width of at least one bit and a non-negative fractional width no shift of the
  format's properties raises, and each operation reduces to a closed expression.\<close>

lemma bind_result_Inr [simp]: "bind_result (Inr v) k = k v"
  by (simp add: bind_result_def)

lemma bind_result_Inl [simp]: "bind_result (Inl e) k = Inl e"
  by (simp add: bind_result_def)

lemma shl_nonneg: "0 \<le> n \<Longrightarrow> shl a n = Inr (a * 2 ^ nat n)"
  by (simp add: shl_def)

lemma shl_neg: "n < 0 \<Longrightarrow> shl a n = Inl NegativeShiftCount"
  by (simp add: shl_def)

lemma shr_nonneg: "0 \<le> n \<Longrightarrow> shr a n = Inr (a div 2 ^ nat n)"
  by (simp add: shr_def)

lemma scale_eq: "0 \<le> F fmt \<Longrightarrow> scale fmt = Inr (2 ^ nat (F fmt))"
  by (simp add: scale_def shl_def)

lemma modulus_eq: "0 \<le> W fmt \<Longrightarrow> modulus fmt = Inr (2 ^ nat (W fmt))"
  by (simp add: modulus_def shl_def)

lemma min_int_eq:
  "1 \<le> W fmt \<Longrightarrow> min_int fmt = Inr (if signed fmt then - (2 ^ nat (W fmt - 1)) else 0)"
  by (simp add: min_int_def shl_def)

lemma max_int_eq:
  "1 \<le> W fmt \<Longrightarrow>
   max_int fmt = Inr (if signed fmt then 2 ^ nat (W fmt - 1) - 1 else 2 ^ nat (W fmt) - 1)"
  by (simp add: max_int_def shl_def)

lemma round_to_int_eq:
  "0 \<le> F fmt \<Longrightarrow>
   round_to_int x fmt rounding =
     (if rounding = ''nearest'' then Inr (py_round (x * 2 ^ nat (F fmt)))
      else if rounding = ''floor'' then Inr \<lfloor>x * 2 ^ nat (F fmt)\<rfloor>
      else if rounding = ''ceil'' then Inr \<lceil>x * 2 ^ nat (F fmt)\<rceil>
      else Inl InvalidRounding)"
  by (simp add: round_to_int_def scale_eq)

lemma wrap_eq:
  "1 \<le> W fmt \<Longrightarrow>
   apply_overflow qi fmt ''wrap'' =
     Inr (if signed fmt \<and> 2 ^ nat (W fmt - 1) \<le> qi mod 2 ^ nat (W fmt)
          then qi mod 2 ^ nat (W fmt) - 2 ^ nat (W fmt) else qi mod 2 ^ nat (W fmt))"
  by (simp add: apply_overflow_def modulus_eq shl_def Let_def)

lemma saturate_eq:
  "1 \<le> W fmt \<Longrightarrow>
   apply_overflow qi fmt ''saturate'' =
     Inr (if signed fmt
          then max (- (2 ^ nat (W fmt - 1))) (min (2 ^ nat (W fmt - 1) - 1) qi)
          else max 0 (min (2 ^ nat (W fmt) - 1) qi))"
  by (simp add: apply_overflow_def min_int_eq max_int_eq)

lemma int_to_real_eq:
  "1 \<le> W fmt \<Longrightarrow> 0 \<le> F fmt \<Longrightarrow>
   int_to_real qi fmt =
     Inr (real_of_int (if signed fmt \<and> 2 ^ nat (W fmt - 1) \<le> qi mod 2 ^ nat (W fmt)
          then qi mod 2 ^ nat (W fmt) - 2 ^ nat (W fmt) else qi mod 2 ^ nat (W fmt))
          / 2 ^ nat (F fmt))"
  by (simp add: int_to_real_def modulus_eq scale_eq shl_def Let_def)

lemma int_to_hex_eq:
  "0 \<le> W fmt \<Longrightarrow>
   int_to_hex qi fmt =
     Inr (''0x'' @ zero_pad (nat ((W fmt + 3) div 4)) (to_hex (nat (qi mod 2 ^ nat (W fmt)))))"
  by (simp add: int_to_hex_def modulus_eq Let_def)

lemma pow_width: "1 \<le> w \<Longrightarrow> (2::int) ^ nat w = 2 * 2 ^ nat (w - 1)"
proof -
  assume "1 \<le> w"
  then have "nat w = Suc (nat (w - 1))" by simp
  then show ?thesis by simp
qed

lemma round_to_int_total:
  "0 \<le> F fmt \<Longrightarrow> rounding \<in> {''nearest'', ''floor'', ''ceil''} \<Longrightarrow>
   \<exists>r. round_to_int x fmt rounding = Inr r"
  by (auto simp add: round_to_int_eq)

lemma apply_overflow_total:
  "1 \<le> W fmt \<Longrightarrow> overflow \<in> {''wrap'', ''saturate''} \<Longrightarrow>
   \<exists>q. apply_overflow qi fmt overflow = Inr q"
  by (auto simp add: wrap_eq saturate_eq)

lemma int_to_real_total: "1 \<le> W fmt \<Longrightarrow> 0 \<le> F fmt \<Longrightarrow> \<exists>xr. int_to_real qi fmt = Inr xr"
  by (simp add: int_to_real_eq)

lemma int_to_hex_total: "1 \<le> W fmt \<Longrightarrow> \<exists>h. int_to_hex qi fmt = Inr h"
  by (simp add: int_to_hex_eq)

section \<open>Quantization\<close>

lemma quantize_example_round:
  "round_to_int (65 / 4) \<lparr>W = 16, F = 11, signed = True\<rparr> ''nearest'' = Inr 33280"
  by (simp add: round_to_int_eq py_round_def)

lemma quantize_example_wrap:
  "apply_overflow 33280 \<lparr>W = 16, F = 11, signed = True\<rparr> ''wrap'' = Inr (- 32256)"
  by (simp add: wrap_eq)

lemma quantize_example_real:
  "int_to_real (- 32256) \<lparr>W = 16, F = 11, signed = True\<rparr> = Inr (- (63 / 4))"
  by (simp add: int_to_real_eq)

lemma quantize_example_hex:
  "int_to_hex (- 32256) \<lparr>W = 16, F = 11, signed = True\<rparr> = Inr ''0x8200''"
  by (simp add: int_to_hex_eq zero_pad_def to_hex.simps hex_digit_def)

lemma quantize_example:
  "quantize (65 / 4) \<lparr>W = 16, F = 11, signed = True\<rparr> ''wrap'' ''nearest''
     = Inr (- 32256, - (63 / 4), ''0x8200'')"
  by (simp only: quantize_def quantize_example_round quantize_example_wrap
      quantize_example_real quantize_example_hex bind_result_Inr)

text \<open>
  C1. For a format of at least one bit with a non-negative fractional width and valid
  tokens, \<open>quantize\<close> returns the triple \<open>(qi, xr, hex)\<close> in which \<open>qi\<close> is the rounded
  input after the overflow policy, \<open>xr\<close> is \<open>int_to_real qi\<close> and \<open>hex\<close> is
  \<open>int_to_hex qi\<close>. On W=16, F=11, signed, the input 16.25 with wrap and nearest gives
  \<open>qi = -32256\<close>, \<open>xr = -15.75\<close> and \<open>0x8200\<close>.
\<close>

theorem quantize_triple:
  assumes "1 \<le> W fmt" and "0 \<le> F fmt"
    and "rounding \<in> {''nearest'', ''floor'', ''ceil''}"
    and "overflow \<in> {''wrap'', ''saturate''}"
  shows "(\<exists>r qi xr h.
            round_to_int x fmt rounding = Inr r \<and>
            apply_overflow r fmt overflow = Inr qi \<and>
            int_to_real qi fmt = Inr xr \<and>
            int_to_hex qi fmt = Inr h \<and>
            quantize x fmt overflow rounding = Inr (qi, xr, h)) \<and>
         quantize (65 / 4) \<lparr>W = 16, F = 11, signed = True\<rparr> ''wrap'' ''nearest''
           = Inr (- 32256, - (63 / 4), ''0x8200'')"
proof -
  obtain r where r: "round_to_int x fmt rounding = Inr r"
    using round_to_int_total [OF assms(2) assms(3)] by blast
  obtain qi where qi: "apply_overflow r fmt overflow = Inr qi"
    using apply_overflow_total [OF assms(1) assms(4)] by blast
  obtain xr where xr: "int_to_real qi fmt = Inr xr"
    using int_to_real_total [OF assms(1) assms(2)] by blast
  obtain h where h: "int_to_hex qi fmt = Inr h"
    using int_to_hex_total [OF assms(1)] by blast
  have "quantize x fmt overflow rounding = Inr (qi, xr, h)"
    by (simp add: quantize_def r qi xr h)
  with r qi xr h show ?thesis
    using quantize_example by blast
qed

theorem quantize_triple_witness:
  "\<exists>r qi xr h.
      round_to_int (1 / 2) \<lparr>W = 8, F = 4, signed = False\<rparr> ''floor'' = Inr r \<and>
      apply_overflow r \<lparr>W = 8, F = 4, signed = False\<rparr> ''saturate'' = Inr qi \<and>
      int_to_real qi \<lparr>W = 8, F = 4, signed = False\<rparr> = Inr xr \<and>
      int_to_hex qi \<lparr>W = 8, F = 4, signed = False\<rparr> = Inr h \<and>
      quantize (1 / 2) \<lparr>W = 8, F = 4, signed = False\<rparr> ''saturate'' ''floor'' = Inr (qi, xr, h)"
  using quantize_triple [of "\<lparr>W = 8, F = 4, signed = False\<rparr>" "''floor''" "''saturate''" "1 / 2"]
  by simp

section \<open>Addition\<close>

lemma add_example_a:
  "round_to_int 20 \<lparr>W = 16, F = 11, signed = True\<rparr> ''nearest'' = Inr 40960"
  by (simp add: round_to_int_eq py_round_def)

lemma add_example_b:
  "round_to_int (- 10) \<lparr>W = 16, F = 11, signed = True\<rparr> ''nearest'' = Inr (- 20480)"
  by (simp add: round_to_int_eq py_round_def)

lemma add_example_sat_a:
  "apply_overflow 40960 \<lparr>W = 16, F = 11, signed = True\<rparr> ''saturate'' = Inr 32767"
  by (simp add: saturate_eq)

lemma add_example_sat_b:
  "apply_overflow (- 20480) \<lparr>W = 16, F = 11, signed = True\<rparr> ''saturate'' = Inr (- 20480)"
  by (simp add: saturate_eq)

lemma add_example_sat_sum:
  "apply_overflow 12287 \<lparr>W = 16, F = 11, signed = True\<rparr> ''saturate'' = Inr 12287"
  by (simp add: saturate_eq)

lemma add_example_sat_unconstrained:
  "apply_overflow (40960 + (- 20480)) \<lparr>W = 16, F = 11, signed = True\<rparr> ''saturate'' = Inr 20480"
  by (simp add: saturate_eq)

lemma add_example_real:
  "int_to_real 12287 \<lparr>W = 16, F = 11, signed = True\<rparr> = Inr (12287 / 2048)"
  by (simp add: int_to_real_eq)

lemma add_example_hex:
  "int_to_hex 12287 \<lparr>W = 16, F = 11, signed = True\<rparr> = Inr ''0x2FFF''"
  by (simp add: int_to_hex_eq zero_pad_def to_hex.simps hex_digit_def)

lemma add_example:
  "add 20 (- 10) \<lparr>W = 16, F = 11, signed = True\<rparr> ''saturate'' ''nearest''
     = Inr (12287, 12287 / 2048, ''0x2FFF'')"
proof -
  have "(32767::int) + - 20480 = 12287" by simp
  then show ?thesis
    by (simp only: add_def add_example_a add_example_b add_example_sat_a add_example_sat_b
        add_example_sat_sum add_example_real add_example_hex bind_result_Inr)
qed

text \<open>
  C3. For a format of at least one bit with a non-negative fractional width and valid
  tokens, \<open>add\<close> rounds each operand, applies the overflow policy to each rounded operand,
  sums the two constrained integers, applies the policy to the sum and decodes the result
  to its real and hexadecimal views. The constraint on the operands comes before the
  addition: with saturation on W=16, F=11, signed, \<open>add 20 (-10)\<close> stores 12287, the sum
  of the saturated 32767 and -20480, where the unconstrained sum would store 20480.
\<close>

theorem add_constrains_operands_then_sum:
  assumes "1 \<le> W fmt" and "0 \<le> F fmt"
    and "rounding \<in> {''nearest'', ''floor'', ''ceil''}"
    and "overflow \<in> {''wrap'', ''saturate''}"
  shows "(\<exists>ra rb ai bi si xr h.
            round_to_int a fmt rounding = Inr ra \<and>
            round_to_int b fmt rounding = Inr rb \<and>
            apply_overflow ra fmt overflow = Inr ai \<and>
            apply_overflow rb fmt overflow = Inr bi \<and>
            apply_overflow (ai + bi) fmt overflow = Inr si \<and>
            int_to_real si fmt = Inr xr \<and>
            int_to_hex si fmt = Inr h \<and>
            add a b fmt overflow rounding = Inr (si, xr, h)) \<and>
         add 20 (- 10) \<lparr>W = 16, F = 11, signed = True\<rparr> ''saturate'' ''nearest''
           = Inr (12287, 12287 / 2048, ''0x2FFF'') \<and>
         apply_overflow (40960 + (- 20480)) \<lparr>W = 16, F = 11, signed = True\<rparr> ''saturate''
           = Inr 20480"
proof -
  obtain ra where ra: "round_to_int a fmt rounding = Inr ra"
    using round_to_int_total [OF assms(2) assms(3)] by blast
  obtain rb where rb: "round_to_int b fmt rounding = Inr rb"
    using round_to_int_total [OF assms(2) assms(3)] by blast
  obtain ai where ai: "apply_overflow ra fmt overflow = Inr ai"
    using apply_overflow_total [OF assms(1) assms(4)] by blast
  obtain bi where bi: "apply_overflow rb fmt overflow = Inr bi"
    using apply_overflow_total [OF assms(1) assms(4)] by blast
  obtain si where si: "apply_overflow (ai + bi) fmt overflow = Inr si"
    using apply_overflow_total [OF assms(1) assms(4)] by blast
  obtain xr where xr: "int_to_real si fmt = Inr xr"
    using int_to_real_total [OF assms(1) assms(2)] by blast
  obtain h where h: "int_to_hex si fmt = Inr h"
    using int_to_hex_total [OF assms(1)] by blast
  have "add a b fmt overflow rounding = Inr (si, xr, h)"
    by (simp add: add_def ra rb ai bi si xr h)
  with ra rb ai bi si xr h show ?thesis
    using add_example add_example_sat_unconstrained by blast
qed

theorem add_constrains_operands_then_sum_witness:
  "\<exists>ra rb ai bi si xr h.
      round_to_int 3 \<lparr>W = 4, F = 2, signed = True\<rparr> ''ceil'' = Inr ra \<and>
      round_to_int (1 / 3) \<lparr>W = 4, F = 2, signed = True\<rparr> ''ceil'' = Inr rb \<and>
      apply_overflow ra \<lparr>W = 4, F = 2, signed = True\<rparr> ''wrap'' = Inr ai \<and>
      apply_overflow rb \<lparr>W = 4, F = 2, signed = True\<rparr> ''wrap'' = Inr bi \<and>
      apply_overflow (ai + bi) \<lparr>W = 4, F = 2, signed = True\<rparr> ''wrap'' = Inr si \<and>
      int_to_real si \<lparr>W = 4, F = 2, signed = True\<rparr> = Inr xr \<and>
      int_to_hex si \<lparr>W = 4, F = 2, signed = True\<rparr> = Inr h \<and>
      add 3 (1 / 3) \<lparr>W = 4, F = 2, signed = True\<rparr> ''wrap'' ''ceil'' = Inr (si, xr, h)"
  using add_constrains_operands_then_sum
    [of "\<lparr>W = 4, F = 2, signed = True\<rparr>" "''ceil''" "''wrap''" 3 "1 / 3"]
  by simp

section \<open>Range of the overflow policies\<close>

lemma min_le_max_int:
  "1 \<le> W fmt \<Longrightarrow> min_int fmt = Inr lo \<Longrightarrow> max_int fmt = Inr hi \<Longrightarrow> lo \<le> hi"
  by (auto simp add: min_int_eq max_int_eq split: if_splits)

lemma wrap_in_range:
  assumes "1 \<le> W fmt" and "apply_overflow qi fmt ''wrap'' = Inr res"
    and "min_int fmt = Inr lo" and "max_int fmt = Inr hi"
  shows "lo \<le> res \<and> res \<le> hi"
proof -
  define h :: int where "h = 2 ^ nat (W fmt - 1)"
  define r where "r = qi mod (2 * h)"
  have m: "(2::int) ^ nat (W fmt) = 2 * h"
    unfolding h_def using assms(1) by (rule pow_width)
  have h: "0 < h" by (simp add: h_def)
  then have r: "0 \<le> r" "r < 2 * h" by (simp_all add: r_def)
  from assms(2) have res: "res = (if signed fmt \<and> h \<le> r then r - 2 * h else r)"
    unfolding wrap_eq [OF assms(1)] m h_def [symmetric] r_def [symmetric] by simp
  from assms(3) have lo: "lo = (if signed fmt then - h else 0)"
    unfolding min_int_eq [OF assms(1)] h_def [symmetric] by simp
  from assms(4) have hi: "hi = (if signed fmt then h - 1 else 2 * h - 1)"
    unfolding max_int_eq [OF assms(1)] m h_def [symmetric] by simp
  show ?thesis
    using r h unfolding res lo hi by (cases "signed fmt") auto
qed

lemma saturate_in_range:
  assumes "1 \<le> W fmt" and "apply_overflow qi fmt ''saturate'' = Inr res"
    and "min_int fmt = Inr lo" and "max_int fmt = Inr hi"
  shows "lo \<le> res \<and> res \<le> hi"
proof -
  have "lo \<le> hi" using assms(1,3,4) by (rule min_le_max_int)
  moreover have "res = max lo (min hi qi)"
    using assms(2) by (simp add: apply_overflow_def assms(3,4))
  ultimately show ?thesis by auto
qed

section \<open>Rounding to nearest\<close>

lemma py_round_of_int: "py_round (real_of_int n) = n"
  by (simp add: py_round_def)

lemma py_round_near: "\<bar>real_of_int (py_round y) - y\<bar> \<le> 1 / 2"
proof -
  have "real_of_int \<lfloor>y\<rfloor> \<le> y" and "y < real_of_int \<lfloor>y\<rfloor> + 1" by linarith+
  then show ?thesis by (auto simp add: py_round_def Let_def)
qed

lemma py_round_tie_even:
  assumes "\<bar>real_of_int (py_round y) - y\<bar> = 1 / 2"
  shows "even (py_round y)"
proof -
  have fl: "real_of_int \<lfloor>y\<rfloor> \<le> y" "y < real_of_int \<lfloor>y\<rfloor> + 1" by linarith+
  show ?thesis
  proof (cases "y - real_of_int \<lfloor>y\<rfloor> = 1 / 2")
    case True
    then show ?thesis by (simp add: py_round_def Let_def)
  next
    case False
    with assms fl show ?thesis
      by (auto simp add: py_round_def Let_def split: if_splits)
  qed
qed

lemma round_half_down_to_even:
  "round_to_int (5 / 2) \<lparr>W = 8, F = 0, signed = True\<rparr> ''nearest'' = Inr 2"
  by (simp add: round_to_int_eq py_round_def)

lemma round_half_up_to_even:
  "round_to_int (7 / 4) \<lparr>W = 8, F = 1, signed = True\<rparr> ''nearest'' = Inr 4"
  by (simp add: round_to_int_eq py_round_def)

lemma round_negative_half_to_even:
  "round_to_int (- (5 / 2)) \<lparr>W = 8, F = 0, signed = True\<rparr> ''nearest'' = Inr (- 2)"
  by (simp add: round_to_int_eq py_round_def)

text \<open>
  C7. With the token \<open>nearest\<close>, \<open>round_to_int\<close> returns an integer nearest to
  \<open>x * 2^F\<close>: it is at most one half away, and when it is exactly one half away it is
  even. So ties go to the even neighbour and not away from zero: 2.5 rounds to 2, 3.5 to 4
  and -2.5 to -2.
\<close>

theorem round_to_int_nearest_ties_to_even:
  assumes "0 \<le> F fmt"
  shows "(\<exists>r. round_to_int x fmt ''nearest'' = Inr r \<and>
              \<bar>real_of_int r - x * 2 ^ nat (F fmt)\<bar> \<le> 1 / 2 \<and>
              (\<bar>real_of_int r - x * 2 ^ nat (F fmt)\<bar> = 1 / 2 \<longrightarrow> even r)) \<and>
         round_to_int (5 / 2) \<lparr>W = 8, F = 0, signed = True\<rparr> ''nearest'' = Inr 2 \<and>
         round_to_int (7 / 4) \<lparr>W = 8, F = 1, signed = True\<rparr> ''nearest'' = Inr 4 \<and>
         round_to_int (- (5 / 2)) \<lparr>W = 8, F = 0, signed = True\<rparr> ''nearest'' = Inr (- 2)"
proof -
  let ?y = "x * 2 ^ nat (F fmt)"
  have "round_to_int x fmt ''nearest'' = Inr (py_round ?y)"
    using assms by (simp add: round_to_int_eq)
  moreover have "\<bar>real_of_int (py_round ?y) - ?y\<bar> \<le> 1 / 2"
    by (rule py_round_near)
  moreover have "\<bar>real_of_int (py_round ?y) - ?y\<bar> = 1 / 2 \<longrightarrow> even (py_round ?y)"
    using py_round_tie_even by blast
  ultimately show ?thesis
    using round_half_down_to_even round_half_up_to_even round_negative_half_to_even by blast
qed

theorem round_to_int_nearest_ties_to_even_witness:
  "\<exists>r. round_to_int (5 / 2) \<lparr>W = 8, F = 0, signed = True\<rparr> ''nearest'' = Inr r \<and>
       \<bar>real_of_int r - 5 / 2\<bar> = 1 / 2 \<and> even r"
proof -
  obtain r where r: "round_to_int (5 / 2) \<lparr>W = 8, F = 0, signed = True\<rparr> ''nearest'' = Inr r"
    and ev: "\<bar>real_of_int r - 5 / 2\<bar> = 1 / 2 \<longrightarrow> even r"
    using round_to_int_nearest_ties_to_even [of "\<lparr>W = 8, F = 0, signed = True\<rparr>" "5 / 2"]
    by auto
  from r have "r = 2" by (simp add: round_half_down_to_even)
  then have "\<bar>real_of_int r - 5 / 2\<bar> = 1 / 2" by simp
  with r ev show ?thesis by blast
qed

section \<open>The wrap policy\<close>

lemma wrap_negative_example:
  "apply_overflow (- 1) \<lparr>W = 8, F = 0, signed = False\<rparr> ''wrap'' = Inr 255"
  by (simp add: wrap_eq)

text \<open>
  C4. Under the wrap policy \<open>apply_overflow\<close> reduces its argument, negative or not,
  modulo \<open>2^W\<close> to the remainder \<open>r\<close> with \<open>0 \<le> r < 2^W\<close>, and for a signed format
  subtracts \<open>2^W\<close> when \<open>r \<ge> 2^(W-1)\<close>; the result lies between \<open>min_int\<close> and
  \<open>max_int\<close>.
\<close>

theorem wrap_is_euclidean_fold:
  assumes "1 \<le> W fmt"
  shows "(\<exists>m r res lo hi.
            modulus fmt = Inr m \<and> m = 2 ^ nat (W fmt) \<and>
            0 \<le> r \<and> r < m \<and> m dvd qi - r \<and>
            res = (if signed fmt \<and> 2 ^ nat (W fmt - 1) \<le> r then r - m else r) \<and>
            apply_overflow qi fmt ''wrap'' = Inr res \<and>
            min_int fmt = Inr lo \<and> max_int fmt = Inr hi \<and> lo \<le> res \<and> res \<le> hi) \<and>
         apply_overflow (- 1) \<lparr>W = 8, F = 0, signed = False\<rparr> ''wrap'' = Inr 255"
proof -
  let ?m = "(2::int) ^ nat (W fmt)"
  let ?r = "qi mod ?m"
  let ?res = "if signed fmt \<and> 2 ^ nat (W fmt - 1) \<le> ?r then ?r - ?m else ?r"
  have m: "modulus fmt = Inr ?m" using assms by (simp add: modulus_eq)
  have r: "0 \<le> ?r" "?r < ?m" by simp_all
  have d: "?m dvd qi - ?r" by (rule dvd_minus_mod)
  have w: "apply_overflow qi fmt ''wrap'' = Inr ?res" by (rule wrap_eq [OF assms])
  obtain lo where lo: "min_int fmt = Inr lo" using assms by (simp add: min_int_eq)
  obtain hi where hi: "max_int fmt = Inr hi" using assms by (simp add: max_int_eq)
  have "lo \<le> ?res \<and> ?res \<le> hi" using assms w lo hi by (rule wrap_in_range)
  with m r d w lo hi show ?thesis
    using wrap_negative_example by blast
qed

theorem wrap_is_euclidean_fold_witness:
  "\<exists>m r res lo hi.
      modulus \<lparr>W = 4, F = 1, signed = True\<rparr> = Inr m \<and> m = 2 ^ nat 4 \<and>
      0 \<le> r \<and> r < m \<and> m dvd - 3 - r \<and>
      res = (if 2 ^ nat (4 - 1) \<le> r then r - m else r) \<and>
      apply_overflow (- 3) \<lparr>W = 4, F = 1, signed = True\<rparr> ''wrap'' = Inr res \<and>
      min_int \<lparr>W = 4, F = 1, signed = True\<rparr> = Inr lo \<and>
      max_int \<lparr>W = 4, F = 1, signed = True\<rparr> = Inr hi \<and> lo \<le> res \<and> res \<le> hi"
  using wrap_is_euclidean_fold [of "\<lparr>W = 4, F = 1, signed = True\<rparr>" "- 3"]
  by simp

section \<open>The saturate policy\<close>

lemma resolution_eq: "0 \<le> F fmt \<Longrightarrow> resolution fmt = Inr (1 / 2 ^ nat (F fmt))"
  by (simp add: resolution_def scale_eq)

lemma min_real_eq:
  "0 \<le> F fmt \<Longrightarrow> min_int fmt = Inr lo \<Longrightarrow>
   min_real fmt = Inr (real_of_int lo / 2 ^ nat (F fmt))"
  by (simp add: min_real_def scale_eq)

lemma max_real_eq:
  "0 \<le> F fmt \<Longrightarrow> max_int fmt = Inr hi \<Longrightarrow>
   max_real fmt = Inr (real_of_int hi / 2 ^ nat (F fmt))"
  by (simp add: max_real_def scale_eq)

lemma saturate_max_min:
  "min_int fmt = Inr lo \<Longrightarrow> max_int fmt = Inr hi \<Longrightarrow>
   apply_overflow qi fmt ''saturate'' = Inr (max lo (min hi qi))"
  by (simp add: apply_overflow_def)

lemma quantize_stored:
  assumes "1 \<le> W fmt" and "0 \<le> F fmt"
    and "round_to_int x fmt rounding = Inr r" and "apply_overflow r fmt overflow = Inr qi"
  shows "\<exists>xr h. int_to_real qi fmt = Inr xr \<and> int_to_hex qi fmt = Inr h \<and>
                quantize x fmt overflow rounding = Inr (qi, xr, h)"
proof -
  obtain xr where xr: "int_to_real qi fmt = Inr xr"
    using int_to_real_total [OF assms(1) assms(2)] by blast
  obtain h where h: "int_to_hex qi fmt = Inr h"
    using int_to_hex_total [OF assms(1)] by blast
  have "quantize x fmt overflow rounding = Inr (qi, xr, h)"
    by (simp add: quantize_def assms(3,4) xr h)
  with xr h show ?thesis by blast
qed

lemma round_nearest_of_scaled_int:
  assumes "0 \<le> F fmt"
  shows "round_to_int (real_of_int n / 2 ^ nat (F fmt)) fmt ''nearest'' = Inr n"
proof -
  have "real_of_int n / 2 ^ nat (F fmt) * 2 ^ nat (F fmt) = real_of_int n" by simp
  then show ?thesis using assms by (simp add: round_to_int_eq py_round_of_int)
qed

text \<open>
  C5. Under the saturate policy \<open>apply_overflow\<close> clamps its argument into
  \<open>[min_int, max_int]\<close>. Hence quantizing \<open>max_real + resolution\<close> with saturate and
  nearest stores \<open>max_int\<close>, and quantizing \<open>min_real - resolution\<close> stores \<open>min_int\<close>.
\<close>

theorem saturate_clamps:
  assumes "1 \<le> W fmt" and "0 \<le> F fmt"
  shows "\<exists>lo hi mn mx rs.
           min_int fmt = Inr lo \<and> max_int fmt = Inr hi \<and>
           min_real fmt = Inr mn \<and> max_real fmt = Inr mx \<and> resolution fmt = Inr rs \<and>
           apply_overflow qi fmt ''saturate''
             = Inr (if qi < lo then lo else if hi < qi then hi else qi) \<and>
           (\<exists>xr h. quantize (mx + rs) fmt ''saturate'' ''nearest'' = Inr (hi, xr, h)) \<and>
           (\<exists>xr h. quantize (mn - rs) fmt ''saturate'' ''nearest'' = Inr (lo, xr, h))"
proof -
  let ?s = "(2::real) ^ nat (F fmt)"
  obtain lo where lo: "min_int fmt = Inr lo" using assms(1) by (simp add: min_int_eq)
  obtain hi where hi: "max_int fmt = Inr hi" using assms(1) by (simp add: max_int_eq)
  have le: "lo \<le> hi" using assms(1) lo hi by (rule min_le_max_int)
  have mn: "min_real fmt = Inr (real_of_int lo / ?s)" using assms(2) lo by (rule min_real_eq)
  have mx: "max_real fmt = Inr (real_of_int hi / ?s)" using assms(2) hi by (rule max_real_eq)
  have rs: "resolution fmt = Inr (1 / ?s)" using assms(2) by (rule resolution_eq)
  have sat: "apply_overflow q fmt ''saturate'' = Inr (max lo (min hi q))" for q
    using lo hi by (rule saturate_max_min)
  have clamp: "apply_overflow qi fmt ''saturate''
      = Inr (if qi < lo then lo else if hi < qi then hi else qi)"
    using le by (simp add: sat max_def min_def)
  have up: "real_of_int hi / ?s + 1 / ?s = real_of_int (hi + 1) / ?s"
    by (simp add: add_divide_distrib)
  have down: "real_of_int lo / ?s - 1 / ?s = real_of_int (lo - 1) / ?s"
    by (simp add: diff_divide_distrib)
  have rup: "round_to_int (real_of_int hi / ?s + 1 / ?s) fmt ''nearest'' = Inr (hi + 1)"
    unfolding up using assms(2) by (rule round_nearest_of_scaled_int)
  have rdown: "round_to_int (real_of_int lo / ?s - 1 / ?s) fmt ''nearest'' = Inr (lo - 1)"
    unfolding down using assms(2) by (rule round_nearest_of_scaled_int)
  have sup: "apply_overflow (hi + 1) fmt ''saturate'' = Inr hi"
    using le by (simp add: sat max_def min_def)
  have sdown: "apply_overflow (lo - 1) fmt ''saturate'' = Inr lo"
    using le by (simp add: sat max_def min_def)
  have qup: "\<exists>xr h. quantize (real_of_int hi / ?s + 1 / ?s) fmt ''saturate'' ''nearest''
      = Inr (hi, xr, h)"
    using quantize_stored [OF assms rup sup] by blast
  have qdown: "\<exists>xr h. quantize (real_of_int lo / ?s - 1 / ?s) fmt ''saturate'' ''nearest''
      = Inr (lo, xr, h)"
    using quantize_stored [OF assms rdown sdown] by blast
  from lo hi mn mx rs clamp qup qdown show ?thesis by blast
qed

theorem saturate_clamps_witness:
  "\<exists>lo hi mn mx rs.
      min_int \<lparr>W = 8, F = 3, signed = True\<rparr> = Inr lo \<and>
      max_int \<lparr>W = 8, F = 3, signed = True\<rparr> = Inr hi \<and>
      min_real \<lparr>W = 8, F = 3, signed = True\<rparr> = Inr mn \<and>
      max_real \<lparr>W = 8, F = 3, signed = True\<rparr> = Inr mx \<and>
      resolution \<lparr>W = 8, F = 3, signed = True\<rparr> = Inr rs \<and>
      apply_overflow 300 \<lparr>W = 8, F = 3, signed = True\<rparr> ''saturate''
        = Inr (if 300 < lo then lo else if hi < 300 then hi else 300) \<and>
      (\<exists>xr h. quantize (mx + rs) \<lparr>W = 8, F = 3, signed = True\<rparr> ''saturate'' ''nearest''
         = Inr (hi, xr, h)) \<and>
      (\<exists>xr h. quantize (mn - rs) \<lparr>W = 8, F = 3, signed = True\<rparr> ''saturate'' ''nearest''
         = Inr (lo, xr, h))"
  using saturate_clamps [of "\<lparr>W = 8, F = 3, signed = True\<rparr>" 300]
  by simp

section \<open>Rounding error of quantization\<close>









section \<open>Decoding and quantizing again\<close>









section \<open>Failures and results of the public operations\<close>

lemma bind_result_Inr_iff: "bind_result m k = Inr v \<longleftrightarrow> (\<exists>u. m = Inr u \<and> k u = Inr v)"
  by (cases m) simp_all

lemma round_to_int_invalid:
  "0 \<le> F fmt \<Longrightarrow> rounding \<notin> {''nearest'', ''floor'', ''ceil''} \<Longrightarrow>
   round_to_int x fmt rounding = Inl InvalidRounding"
  by (simp add: round_to_int_eq)

lemma apply_overflow_invalid:
  "overflow \<notin> {''wrap'', ''saturate''} \<Longrightarrow> apply_overflow qi fmt overflow = Inl InvalidOverflow"
  by (simp add: apply_overflow_def)

lemma apply_overflow_in_range:
  assumes "1 \<le> W fmt" and "apply_overflow q fmt overflow = Inr res"
    and "min_int fmt = Inr lo" and "max_int fmt = Inr hi"
  shows "lo \<le> res \<and> res \<le> hi"
proof -
  consider "overflow = ''wrap''" | "overflow = ''saturate''"
    | "overflow \<notin> {''wrap'', ''saturate''}" by blast
  then show ?thesis
  proof cases
    case 1
    with assms show ?thesis using wrap_in_range by blast
  next
    case 2
    with assms show ?thesis using saturate_in_range by blast
  next
    case 3
    then have "apply_overflow q fmt overflow = Inl InvalidOverflow"
      by (rule apply_overflow_invalid)
    with assms(2) show ?thesis by simp
  qed
qed

lemma quantize_stored_by_overflow:
  "quantize x fmt overflow rounding = Inr (qi, xr, h) \<Longrightarrow>
   \<exists>q. apply_overflow q fmt overflow = Inr qi"
  by (auto simp add: quantize_def bind_result_Inr_iff)

lemma add_stored_by_overflow:
  "add a b fmt overflow rounding = Inr (qi, xr, h) \<Longrightarrow>
   \<exists>q. apply_overflow q fmt overflow = Inr qi"
  by (auto simp add: add_def bind_result_Inr_iff)

lemma mul_stored_by_overflow:
  "mul a b fmt overflow rounding = Inr (qi, xr, h) \<Longrightarrow>
   \<exists>q. apply_overflow q fmt overflow = Inr qi"
  by (auto simp add: mul_def Let_def bind_result_Inr_iff)

lemma add_total:
  assumes "1 \<le> W fmt" and "0 \<le> F fmt"
    and "rounding \<in> {''nearest'', ''floor'', ''ceil''}"
    and "overflow \<in> {''wrap'', ''saturate''}"
  shows "\<exists>si xr h. add a b fmt overflow rounding = Inr (si, xr, h)"
proof -
  obtain ra where ra: "round_to_int a fmt rounding = Inr ra"
    using round_to_int_total [OF assms(2) assms(3)] by blast
  obtain rb where rb: "round_to_int b fmt rounding = Inr rb"
    using round_to_int_total [OF assms(2) assms(3)] by blast
  obtain ai where ai: "apply_overflow ra fmt overflow = Inr ai"
    using apply_overflow_total [OF assms(1) assms(4)] by blast
  obtain bi where bi: "apply_overflow rb fmt overflow = Inr bi"
    using apply_overflow_total [OF assms(1) assms(4)] by blast
  obtain si where si: "apply_overflow (ai + bi) fmt overflow = Inr si"
    using apply_overflow_total [OF assms(1) assms(4)] by blast
  obtain xr where xr: "int_to_real si fmt = Inr xr"
    using int_to_real_total [OF assms(1) assms(2)] by blast
  obtain h where h: "int_to_hex si fmt = Inr h"
    using int_to_hex_total [OF assms(1)] by blast
  have "add a b fmt overflow rounding = Inr (si, xr, h)"
    by (simp add: add_def ra rb ai bi si xr h)
  then show ?thesis by blast
qed

lemma quantize_total:
  assumes "1 \<le> W fmt" and "0 \<le> F fmt"
    and "rounding \<in> {''nearest'', ''floor'', ''ceil''}"
    and "overflow \<in> {''wrap'', ''saturate''}"
  shows "\<exists>qi xr h. quantize x fmt overflow rounding = Inr (qi, xr, h)"
proof -
  obtain r where r: "round_to_int x fmt rounding = Inr r"
    using round_to_int_total [OF assms(2) assms(3)] by blast
  obtain qi where qi: "apply_overflow r fmt overflow = Inr qi"
    using apply_overflow_total [OF assms(1) assms(4)] by blast
  show ?thesis using quantize_stored [OF assms(1,2) r qi] by blast
qed

section \<open>Multiplication\<close>

text \<open>The rescaling of \<open>mul\<close> for a format with at least one fractional bit.\<close>

lemma mul_rescale:
  assumes "1 \<le> W fmt" and "1 \<le> F fmt"
    and "rounding \<in> {''nearest'', ''floor'', ''ceil''}"
    and "overflow \<in> {''wrap'', ''saturate''}"
  shows "\<exists>ra rb ai bi qi xr h.
           round_to_int a fmt rounding = Inr ra \<and>
           round_to_int b fmt rounding = Inr rb \<and>
           apply_overflow ra fmt overflow = Inr ai \<and>
           apply_overflow rb fmt overflow = Inr bi \<and>
           apply_overflow
             ((if 0 \<le> ai * bi then ai * bi + 2 ^ nat (F fmt - 1)
               else ai * bi - 2 ^ nat (F fmt - 1)) div 2 ^ nat (F fmt)) fmt overflow = Inr qi \<and>
           int_to_real qi fmt = Inr xr \<and>
           int_to_hex qi fmt = Inr h \<and>
           mul a b fmt overflow rounding = Inr (qi, xr, h)"
proof -
  from assms(2) have F0: "0 \<le> F fmt" and F1: "0 \<le> F fmt - 1" by simp_all
  let ?q = "\<lambda>ai bi. (if 0 \<le> ai * bi then ai * bi + 2 ^ nat (F fmt - 1)
               else ai * bi - 2 ^ nat (F fmt - 1)) div 2 ^ nat (F fmt)"
  obtain ra where ra: "round_to_int a fmt rounding = Inr ra"
    using round_to_int_total [OF F0 assms(3)] by blast
  obtain rb where rb: "round_to_int b fmt rounding = Inr rb"
    using round_to_int_total [OF F0 assms(3)] by blast
  obtain ai where ai: "apply_overflow ra fmt overflow = Inr ai"
    using apply_overflow_total [OF assms(1) assms(4)] by blast
  obtain bi where bi: "apply_overflow rb fmt overflow = Inr bi"
    using apply_overflow_total [OF assms(1) assms(4)] by blast
  obtain qi where qi: "apply_overflow (?q ai bi) fmt overflow = Inr qi"
    using apply_overflow_total [OF assms(1) assms(4)] by blast
  obtain xr where xr: "int_to_real qi fmt = Inr xr"
    using int_to_real_total [OF assms(1) F0] by blast
  obtain h where h: "int_to_hex qi fmt = Inr h"
    using int_to_hex_total [OF assms(1)] by blast
  have bias: "shl 1 (F fmt - 1) = Inr (2 ^ nat (F fmt - 1))"
    using F1 by (simp add: shl_nonneg)
  have "mul a b fmt overflow rounding = Inr (qi, xr, h)"
  proof (cases "0 \<le> ai * bi")
    case True
    with qi have "apply_overflow ((ai * bi + 2 ^ nat (F fmt - 1)) div 2 ^ nat (F fmt)) fmt overflow
        = Inr qi" by simp
    with True show ?thesis
      by (simp add: mul_def ra rb ai bi bias shr_nonneg [OF F0] xr h)
  next
    case False
    with qi have "apply_overflow ((ai * bi - 2 ^ nat (F fmt - 1)) div 2 ^ nat (F fmt)) fmt overflow
        = Inr qi" by simp
    with False show ?thesis
      by (simp add: mul_def ra rb ai bi bias shr_nonneg [OF F0] xr h)
  qed
  with ra rb ai bi qi xr h show ?thesis by blast
qed

text \<open>Without a fractional bit the bias \<open>1 << (F - 1)\<close> has a negative shift count.\<close>

lemma mul_integer_format:
  assumes "1 \<le> W fmt" and "F fmt = 0"
    and "rounding \<in> {''nearest'', ''floor'', ''ceil''}"
    and "overflow \<in> {''wrap'', ''saturate''}"
  shows "mul a b fmt overflow rounding = Inl NegativeShiftCount"
proof -
  from assms(2) have F0: "0 \<le> F fmt" by simp
  obtain ra where ra: "round_to_int a fmt rounding = Inr ra"
    using round_to_int_total [OF F0 assms(3)] by blast
  obtain rb where rb: "round_to_int b fmt rounding = Inr rb"
    using round_to_int_total [OF F0 assms(3)] by blast
  obtain ai where ai: "apply_overflow ra fmt overflow = Inr ai"
    using apply_overflow_total [OF assms(1) assms(4)] by blast
  obtain bi where bi: "apply_overflow rb fmt overflow = Inr bi"
    using apply_overflow_total [OF assms(1) assms(4)] by blast
  have "shl 1 (F fmt - 1) = Inl NegativeShiftCount"
    using assms(2) by (simp add: shl_neg)
  then show ?thesis
    by (simp add: mul_def ra rb ai bi)
qed

lemma mul_example_a:
  "round_to_int (11 / 2) \<lparr>W = 16, F = 11, signed = True\<rparr> ''nearest'' = Inr 11264"
  by (simp add: round_to_int_eq py_round_def)

lemma mul_example_b:
  "round_to_int 4 \<lparr>W = 16, F = 11, signed = True\<rparr> ''nearest'' = Inr 8192"
  by (simp add: round_to_int_eq py_round_def)

lemma mul_example_sat_a:
  "apply_overflow 11264 \<lparr>W = 16, F = 11, signed = True\<rparr> ''saturate'' = Inr 11264"
  by (simp add: saturate_eq)

lemma mul_example_sat_b:
  "apply_overflow 8192 \<lparr>W = 16, F = 11, signed = True\<rparr> ''saturate'' = Inr 8192"
  by (simp add: saturate_eq)

lemma mul_example_bias: "shl 1 (11 - 1) = Inr 1024"
  by (simp add: shl_def)

lemma mul_example_shift: "shr (11264 * 8192 + 1024) 11 = Inr 45056"
  by (simp add: shr_def)

lemma mul_example_sat:
  "apply_overflow 45056 \<lparr>W = 16, F = 11, signed = True\<rparr> ''saturate'' = Inr 32767"
  by (simp add: saturate_eq)

lemma mul_example_real:
  "int_to_real 32767 \<lparr>W = 16, F = 11, signed = True\<rparr> = Inr (32767 / 2048)"
  by (simp add: int_to_real_eq)

lemma mul_example_hex:
  "int_to_hex 32767 \<lparr>W = 16, F = 11, signed = True\<rparr> = Inr ''0x7FFF''"
  by (simp add: int_to_hex_eq zero_pad_def to_hex.simps hex_digit_def)

lemma mul_example:
  "mul (11 / 2) 4 \<lparr>W = 16, F = 11, signed = True\<rparr> ''saturate'' ''nearest''
     = Inr (32767, 32767 / 2048, ''0x7FFF'')"
proof -
  have F: "F \<lparr>W = 16, F = 11, signed = True\<rparr> = 11" by simp
  have pos: "(0::int) \<le> 11264 * 8192" by simp
  show ?thesis
    unfolding mul_def mul_example_a mul_example_b mul_example_sat_a mul_example_sat_b
      bind_result_Inr Let_def F if_P [OF pos] mul_example_bias mul_example_shift
      mul_example_sat mul_example_real mul_example_hex ..
qed

text \<open>
  C2. \<open>mul\<close> quantizes and constrains each operand, multiplies the two integers, adds the
  bias \<open>2^(F-1)\<close> to a non-negative product and subtracts it from a negative one, shifts
  right by \<open>F\<close> bits, applies the overflow policy and decodes. The code does this for a
  format with \<open>F \<ge> 1\<close> (\<open>mul_rescale\<close>), and \<open>mul 5.5 4.0\<close> on W=16, F=11, signed with
  saturation stores 32767 (\<open>mul_example\<close>). For a format without fractional bits the
  bias \<open>1 << (F - 1)\<close> has the shift count -1 and the call raises: on W=16, F=0 the same
  product returns no triple.
\<close>

theorem mul_rescale_raises_without_fraction:
  "mul (11 / 2) 4 \<lparr>W = 16, F = 0, signed = True\<rparr> ''saturate'' ''nearest''
     = Inl NegativeShiftCount"
  by (rule mul_integer_format) simp_all

section \<open>Invalid tokens\<close>

lemma quantize_invalid_rounding:
  "0 \<le> F fmt \<Longrightarrow> rounding \<notin> {''nearest'', ''floor'', ''ceil''} \<Longrightarrow>
   quantize x fmt overflow rounding = Inl InvalidRounding"
  by (simp add: quantize_def round_to_int_invalid)

lemma quantize_invalid_overflow:
  assumes "0 \<le> F fmt" and "rounding \<in> {''nearest'', ''floor'', ''ceil''}"
    and "overflow \<notin> {''wrap'', ''saturate''}"
  shows "quantize x fmt overflow rounding = Inl InvalidOverflow"
proof -
  obtain r where "round_to_int x fmt rounding = Inr r"
    using round_to_int_total [OF assms(1,2)] by blast
  then show ?thesis
    by (simp add: quantize_def apply_overflow_invalid [OF assms(3)])
qed

lemma add_invalid_rounding:
  "0 \<le> F fmt \<Longrightarrow> rounding \<notin> {''nearest'', ''floor'', ''ceil''} \<Longrightarrow>
   add a b fmt overflow rounding = Inl InvalidRounding"
  by (simp add: add_def round_to_int_invalid)

lemma add_invalid_overflow:
  assumes "0 \<le> F fmt" and "rounding \<in> {''nearest'', ''floor'', ''ceil''}"
    and "overflow \<notin> {''wrap'', ''saturate''}"
  shows "add a b fmt overflow rounding = Inl InvalidOverflow"
proof -
  obtain r where "round_to_int a fmt rounding = Inr r"
    using round_to_int_total [OF assms(1,2)] by blast
  then show ?thesis
    by (simp add: add_def apply_overflow_invalid [OF assms(3)])
qed

lemma mul_invalid_rounding:
  "0 \<le> F fmt \<Longrightarrow> rounding \<notin> {''nearest'', ''floor'', ''ceil''} \<Longrightarrow>
   mul a b fmt overflow rounding = Inl InvalidRounding"
  by (simp add: mul_def round_to_int_invalid)

lemma mul_invalid_overflow:
  assumes "0 \<le> F fmt" and "rounding \<in> {''nearest'', ''floor'', ''ceil''}"
    and "overflow \<notin> {''wrap'', ''saturate''}"
  shows "mul a b fmt overflow rounding = Inl InvalidOverflow"
proof -
  obtain r where "round_to_int a fmt rounding = Inr r"
    using round_to_int_total [OF assms(1,2)] by blast
  then show ?thesis
    by (simp add: mul_def apply_overflow_invalid [OF assms(3)])
qed

text \<open>
  C6. The three operations raise \<open>InvalidRounding\<close> or \<open>InvalidOverflow\<close> when a token is
  outside its set, and \<open>quantize\<close> and \<open>add\<close> raise in no other case on a format with
  \<open>W \<ge> 1\<close> and \<open>F \<ge> 0\<close>. \<open>mul\<close> does: on the format W=8, F=0, which satisfies
  \<open>W \<ge> 1\<close> and \<open>0 \<le> F < W\<close>, with the valid tokens wrap and nearest, it raises on the
  negative shift count of its bias.
\<close>

theorem mul_raises_on_valid_tokens:
  "mul 1 1 \<lparr>W = 8, F = 0, signed = True\<rparr> ''wrap'' ''nearest'' = Inl NegativeShiftCount \<and>
   1 \<le> W \<lparr>W = 8, F = 0, signed = True\<rparr> \<and>
   0 \<le> F \<lparr>W = 8, F = 0, signed = True\<rparr> \<and>
   F \<lparr>W = 8, F = 0, signed = True\<rparr> < W \<lparr>W = 8, F = 0, signed = True\<rparr> \<and>
   ''wrap'' \<in> {''wrap'', ''saturate''} \<and> ''nearest'' \<in> {''nearest'', ''floor'', ''ceil''}"
  using mul_integer_format [of "\<lparr>W = 8, F = 0, signed = True\<rparr>" "''nearest''" "''wrap''" 1 1]
  by simp

text \<open>
  C10. On a format with \<open>W \<ge> 1\<close> and \<open>F \<ge> 0\<close> and with valid tokens, the stored integer
  returned by \<open>quantize\<close>, by \<open>add\<close> and by \<open>mul\<close> lies between \<open>min_int\<close> and
  \<open>max_int\<close>, that is in \<open>[-2^(W-1), 2^(W-1) - 1]\<close> for a signed format and in
  \<open>[0, 2^W - 1]\<close> for an unsigned one, under either overflow policy. \<open>quantize\<close> and
  \<open>add\<close> always return; \<open>mul\<close> returns when \<open>F \<ge> 1\<close>.
\<close>

theorem stored_integer_in_range:
  assumes "1 \<le> W fmt" and "0 \<le> F fmt"
    and "rounding \<in> {''nearest'', ''floor'', ''ceil''}"
    and "overflow \<in> {''wrap'', ''saturate''}"
  shows "\<exists>lo hi.
           min_int fmt = Inr lo \<and> max_int fmt = Inr hi \<and>
           lo = (if signed fmt then - (2 ^ nat (W fmt - 1)) else 0) \<and>
           hi = (if signed fmt then 2 ^ nat (W fmt - 1) - 1 else 2 ^ nat (W fmt) - 1) \<and>
           (\<exists>qi xr h. quantize x fmt overflow rounding = Inr (qi, xr, h) \<and> lo \<le> qi \<and> qi \<le> hi) \<and>
           (\<exists>qi xr h. add a b fmt overflow rounding = Inr (qi, xr, h) \<and> lo \<le> qi \<and> qi \<le> hi) \<and>
           (\<forall>qi xr h. mul a b fmt overflow rounding = Inr (qi, xr, h) \<longrightarrow> lo \<le> qi \<and> qi \<le> hi) \<and>
           (1 \<le> F fmt \<longrightarrow> (\<exists>qi xr h. mul a b fmt overflow rounding = Inr (qi, xr, h)))"
proof -
  let ?lo = "if signed fmt then - (2 ^ nat (W fmt - 1)) else (0::int)"
  let ?hi = "if signed fmt then 2 ^ nat (W fmt - 1) - 1 else 2 ^ nat (W fmt) - (1::int)"
  have lo: "min_int fmt = Inr ?lo" by (rule min_int_eq [OF assms(1)])
  have hi: "max_int fmt = Inr ?hi" by (rule max_int_eq [OF assms(1)])
  have rng: "?lo \<le> res \<and> res \<le> ?hi" if "apply_overflow q fmt overflow = Inr res" for q res
    using assms(1) that lo hi by (rule apply_overflow_in_range)
  obtain qi xr h where q: "quantize x fmt overflow rounding = Inr (qi, xr, h)"
    using quantize_total [OF assms] by blast
  then have "?lo \<le> qi \<and> qi \<le> ?hi"
    using quantize_stored_by_overflow rng by blast
  with q have Q: "\<exists>qi xr h. quantize x fmt overflow rounding = Inr (qi, xr, h) \<and>
      ?lo \<le> qi \<and> qi \<le> ?hi" by blast
  obtain si xr' h' where s: "add a b fmt overflow rounding = Inr (si, xr', h')"
    using add_total [OF assms] by blast
  then have "?lo \<le> si \<and> si \<le> ?hi"
    using add_stored_by_overflow rng by blast
  with s have A: "\<exists>qi xr h. add a b fmt overflow rounding = Inr (qi, xr, h) \<and>
      ?lo \<le> qi \<and> qi \<le> ?hi" by blast
  have M: "\<forall>qi xr h. mul a b fmt overflow rounding = Inr (qi, xr, h) \<longrightarrow>
      ?lo \<le> qi \<and> qi \<le> ?hi"
    using mul_stored_by_overflow rng by blast
  have T: "1 \<le> F fmt \<longrightarrow> (\<exists>qi xr h. mul a b fmt overflow rounding = Inr (qi, xr, h))"
    using mul_rescale [OF assms(1) _ assms(3,4)] by blast
  from lo hi Q A M T show ?thesis by blast
qed

theorem stored_integer_in_range_witness:
  "\<exists>lo hi.
      min_int \<lparr>W = 8, F = 4, signed = True\<rparr> = Inr lo \<and>
      max_int \<lparr>W = 8, F = 4, signed = True\<rparr> = Inr hi \<and> lo = - 128 \<and> hi = 127 \<and>
      (\<exists>qi xr h. quantize 100 \<lparr>W = 8, F = 4, signed = True\<rparr> ''wrap'' ''ceil'' = Inr (qi, xr, h) \<and>
         lo \<le> qi \<and> qi \<le> hi) \<and>
      (\<exists>qi xr h. add 7 (- 7) \<lparr>W = 8, F = 4, signed = True\<rparr> ''wrap'' ''ceil'' = Inr (qi, xr, h) \<and>
         lo \<le> qi \<and> qi \<le> hi) \<and>
      (\<exists>qi xr h. mul 7 (- 7) \<lparr>W = 8, F = 4, signed = True\<rparr> ''wrap'' ''ceil'' = Inr (qi, xr, h) \<and>
         lo \<le> qi \<and> qi \<le> hi)"
  using stored_integer_in_range
    [where fmt = "\<lparr>W = 8, F = 4, signed = True\<rparr>" and rounding = "''ceil''"
       and overflow = "''wrap''" and x = 100 and a = 7 and b = "- 7"]
  by simp blast

end
